theory Spec2Isabelle
  imports Main "HOL-Library.Monad_Syntax"
begin

section \<open>Native helpers of the engine\<close>

text \<open>The limb base of the engine, \<^verbatim>\<open>var base=Math.pow(2,25)\<close>.\<close>

definition base :: int where
  "base = 2 ^ 25"

text \<open>The constant \<^verbatim>\<open>Number.MAX_SAFE_INTEGER\<close> of the host language (2^53 - 1), the
  largest n such that n and n + 1 are both exactly representable.\<close>

definition MAX_SAFE_INTEGER :: int where
  "MAX_SAFE_INTEGER = 2 ^ 53 - 1"

text \<open>The bound up to which the engine takes native integers to be exact: "JS typically
  holds integers accurately to at least up to 2^50".\<close>

definition assumed_exact :: int where
  "assumed_exact = 2 ^ 50"

text \<open>The remainder operator \<^verbatim>\<open>%\<close> of the host language truncates: the result takes
  the sign of the dividend.\<close>

definition jsmod :: "int \<Rightarrow> int \<Rightarrow> int" where
  "jsmod a b = (if 0 \<le> a then a mod \<bar>b\<bar> else - ((- a) mod \<bar>b\<bar>))"

text \<open>\<^verbatim>\<open>(xs[i] || 0)\<close>: a read past the end gives undefined, which \<^verbatim>\<open>||\<close> turns
  into 0.\<close>

definition nth0 :: "int list \<Rightarrow> nat \<Rightarrow> int" where
  "nth0 xs i = (if i < length xs then xs ! i else 0)"

text \<open>\<^verbatim>\<open>xs[i] = v\<close>. Every loop of the engine writes at an index that is at most
  the current length, so a write either replaces a limb or appends one.\<close>

definition store :: "int list \<Rightarrow> nat \<Rightarrow> int \<Rightarrow> int list" where
  "store xs i v = (if i < length xs then xs[i := v] else xs @ [v])"

subsection \<open>Factorising the base\<close>

text \<open>\<^verbatim>\<open>isprime\<close>: trial division by the primes found so far, as far as the square
  root of the candidate (strictly below it).\<close>

fun isprime :: "int list \<Rightarrow> int \<Rightarrow> bool" where
  "isprime [] prime = True"
| "isprime (p # primes) prime =
     (if p * p < prime then (if jsmod prime p = 0 then False else isprime primes prime)
      else True)"

partial_function (option) next_prime :: "int list \<Rightarrow> int \<Rightarrow> int option" where
  "next_prime primes lastprime =
     (let lp = (if lastprime = 2 then 3 else lastprime + 2)
      in if \<not> isprime primes lp then next_prime primes lp else Some lp)"

partial_function (option) factorise :: "int \<Rightarrow> int \<Rightarrow> int list \<Rightarrow> int list \<Rightarrow> int list option" where
  "factorise factorisingbase lastprime primes result =
     (if factorisingbase > 1 then
        (if jsmod factorisingbase lastprime = 0
         then factorise (factorisingbase div lastprime) lastprime primes (result @ [lastprime])
         else (case next_prime primes lastprime of
                 None \<Rightarrow> None
               | Some lp \<Rightarrow> factorise factorisingbase lp (primes @ [lp]) result))
      else Some result)"

declare next_prime.simps [code]
declare factorise.simps [code]

definition factors :: "int list option" where
  "factors = factorise base 2 [] []"

section \<open>The data model\<close>

text \<open>The two sentinel strings of the table \<^verbatim>\<open>errors\<close>.\<close>

datatype err = invalid | division_by_zero

fun errors :: "err \<Rightarrow> string" where
  "errors invalid = ''Invalid Number''"
| "errors division_by_zero = ''Invalid Number - Division By Zero''"

text \<open>The field \<^verbatim>\<open>number\<close> holds either the array of limbs (least significant
  first) or one of the sentinel strings. The field \<^verbatim>\<open>rest\<close> holds the native
  number 0 (\<open>None\<close>) or the remainder object of the last division.\<close>

datatype numfield = Limbs "int list" | Sentinel err

datatype bignum = BigNum (number: numfield) (sign: int) (rest: "bignum option")

text \<open>What a caller can pass to the constructor and to the methods.\<close>

datatype elem = ENum int | EStr string

datatype input = Undefined | Native int | Str string | Arr "elem list" | Obj bignum

subsection \<open>Constructor: no parameter, another instance, a native number\<close>

definition BigNumber_zero :: bignum where
  "BigNumber_zero = BigNum (Limbs [0]) 1 None"

text \<open>The copy takes a slice of the limbs. The source stores in the copy the very
  remainder object of the original (\<^verbatim>\<open>this.rest = initialNumber.rest\<close>); the embedding
  passes values, so that the two fields name one shared object, and that a later change
  made in place to that object shows through both, is not represented here.\<close>

definition BigNumber_copy :: "bignum \<Rightarrow> bignum" where
  "BigNumber_copy initialNumber =
     BigNum (number initialNumber) (sign initialNumber) (rest initialNumber)"

function native_limbs :: "int \<Rightarrow> int list \<Rightarrow> int list" where
  "native_limbs initialNumber num =
     (if initialNumber > 0
      then native_limbs (initialNumber div base) (num @ [jsmod initialNumber base])
      else num)"
  by pat_completeness auto
termination
  by (relation "measure (\<lambda>(n, num). nat n)") (auto simp: base_def)

declare native_limbs.simps [simp del]

definition BigNumber_native :: "int \<Rightarrow> bignum" where
  "BigNumber_native initialNumber =
     (if initialNumber = 0 then BigNumber_zero
      else BigNum (Limbs (native_limbs \<bar>initialNumber\<bar> []))
                  (if initialNumber < 0 then - 1 else 1) None)"

subsection \<open>Reading the number field\<close>

text \<open>\<^verbatim>\<open>this.number.length\<close> is defined for an array and for a string.\<close>

fun len :: "numfield \<Rightarrow> nat" where
  "len (Limbs xs) = length xs"
| "len (Sentinel e) = length (errors e)"

text \<open>An element read from the number field is a number or a one-character string.\<close>

datatype cell = CNum int | CChr char

fun cell_at :: "numfield \<Rightarrow> nat \<Rightarrow> cell" where
  "cell_at (Limbs xs) i = CNum (xs ! i)"
| "cell_at (Sentinel e) i = CChr (errors e ! i)"

text \<open>The conversion of a one-character string to a number: a decimal digit is its
  value, white space is 0, anything else is NaN (\<open>None\<close>).\<close>

definition digit_of_char :: "char \<Rightarrow> int option" where
  "digit_of_char c =
     (let k = (of_char c :: nat)
      in if 48 \<le> k \<and> k \<le> 57 then Some (int k - 48) else None)"

definition tonumber :: "char \<Rightarrow> int option" where
  "tonumber c =
     (case digit_of_char c of
        Some d \<Rightarrow> Some d
      | None \<Rightarrow> (if (of_char c :: nat) \<in> {9, 10, 11, 12, 13, 32} then Some 0 else None))"

text \<open>The relational operator \<^verbatim>\<open>>\<close>: numbers by value, two strings by code unit,
  a string against a number after conversion, and false whenever NaN is involved.\<close>

fun js_gt :: "cell \<Rightarrow> cell \<Rightarrow> bool" where
  "js_gt (CNum a) (CNum b) = (a > b)"
| "js_gt (CNum a) (CChr d) = (case tonumber d of Some n \<Rightarrow> a > n | None \<Rightarrow> False)"
| "js_gt (CChr c) (CNum b) = (case tonumber c of Some n \<Rightarrow> n > b | None \<Rightarrow> False)"
| "js_gt (CChr c) (CChr d) = ((of_char c :: nat) > of_char d)"

text \<open>\<^verbatim>\<open>isZero\<close>: every element is strictly equal to the number 0. A character of
  a sentinel string never is.\<close>

fun all_zero :: "int list \<Rightarrow> bool" where
  "all_zero [] = True"
| "all_zero (x # xs) = (if x \<noteq> 0 then False else all_zero xs)"

fun isZero :: "bignum \<Rightarrow> bool" where
  "isZero (BigNum (Limbs xs) s r) = all_zero xs"
| "isZero (BigNum (Sentinel e) s r) = False"

section \<open>Comparator\<close>

text \<open>The loop of \<^verbatim>\<open>_compare\<close>, from the most significant index down; the first
  argument counts the indices still to visit.\<close>

fun compare_loop :: "nat \<Rightarrow> int \<Rightarrow> numfield \<Rightarrow> numfield \<Rightarrow> int" where
  "compare_loop 0 s a b = 0"
| "compare_loop (Suc index) s a b =
     (if js_gt (cell_at a index) (cell_at b index) then s
      else if js_gt (cell_at b index) (cell_at a index) then s * (- 1)
      else compare_loop index s a b)"

definition compare_core :: "bignum \<Rightarrow> bignum \<Rightarrow> int" where
  "compare_core this bigNumber =
     (if sign this \<noteq> sign bigNumber then sign this
      else if len (number this) > len (number bigNumber) then sign this
      else if len (number this) < len (number bigNumber) then sign this * (- 1)
      else compare_loop (len (number this)) (sign this) (number this) (number bigNumber))"

definition lte_core :: "bignum \<Rightarrow> bignum \<Rightarrow> bool" where
  "lte_core this bigNumber = (compare_core this bigNumber \<le> 0)"

definition lt_core :: "bignum \<Rightarrow> bignum \<Rightarrow> bool" where
  "lt_core this bigNumber = (compare_core this bigNumber < 0)"

text \<open>The helper \<^verbatim>\<open>abs(number)\<close>: a copy with the sign set to 1.\<close>

definition abs_copy :: "bignum \<Rightarrow> bignum" where
  "abs_copy b = BigNum (number b) 1 (rest b)"

section \<open>Adder and subtractor\<close>

text \<open>The loop of \<^verbatim>\<open>BigNumber._add\<close> on the two limb arrays; it writes into the
  first one.\<close>

function add_loop :: "nat \<Rightarrow> nat \<Rightarrow> int \<Rightarrow> int list \<Rightarrow> int list \<Rightarrow> int list" where
  "add_loop index length' remainder an bn =
     (if index < length' \<or> remainder > 0 then
        (let r = remainder + (nth0 an index + nth0 bn index)
         in add_loop (index + 1) length' (r div base) (store an index (jsmod r base)) bn)
      else an)"
  by pat_completeness auto
termination
  by (relation "measures [\<lambda>(index, length', remainder, an, bn).
                             max length' (max (length an) (length bn)) - index,
                          \<lambda>(index, length', remainder, an, bn). nat remainder]")
     (auto simp: nth0_def store_def base_def max_def split: if_splits)

declare add_loop.simps [simp del]

definition BigNumber_add :: "int list \<Rightarrow> int list \<Rightarrow> int list" where
  "BigNumber_add an bn = add_loop 0 (max (length an) (length bn)) 0 an bn"

text \<open>The loop of \<^verbatim>\<open>BigNumber._subtract\<close>, then the removal of the zero limbs at
  the most significant end (never the last limb).\<close>

function sub_loop :: "nat \<Rightarrow> nat \<Rightarrow> int \<Rightarrow> int list \<Rightarrow> int list \<Rightarrow> int list" where
  "sub_loop index length' remainder an bn =
     (if index < length' then
        (let d = an ! index - (nth0 bn index + remainder);
             r = (if d < 0 then 1 else 0)
         in sub_loop (index + 1) length' r (an[index := d + r * base]) bn)
      else an)"
  by pat_completeness auto
termination
  by (relation "measure (\<lambda>(index, length', remainder, an, bn). length' - index)") auto

declare sub_loop.simps [simp del]

function count_zeroes :: "int list \<Rightarrow> nat \<Rightarrow> nat \<Rightarrow> nat" where
  "count_zeroes xs length' index =
     (if xs ! (length' - index) = 0 \<and> length' - index > 0
      then count_zeroes xs length' (index + 1) else index)"
  by pat_completeness auto
termination
  by (relation "measure (\<lambda>(xs, length', index). length' - index)") auto

declare count_zeroes.simps [simp del]

definition strip_zeroes :: "int list \<Rightarrow> int list" where
  "strip_zeroes xs =
     (if xs = [] then xs
      else take (length xs - count_zeroes xs (length xs - 1) 0) xs)"

definition BigNumber_subtract :: "int list \<Rightarrow> int list \<Rightarrow> int list" where
  "BigNumber_subtract an bn = strip_zeroes (sub_loop 0 (length an) 0 an bn)"

text \<open>The methods return a pair: the receiver as the call leaves it, and the object
  the call returns. A result \<open>None\<close> means that the call goes on to do arithmetic
  on the characters of a sentinel string, which this embedding does not cover.\<close>

definition limbs_of :: "bignum \<Rightarrow> int list option" where
  "limbs_of b = (case number b of Limbs xs \<Rightarrow> Some xs | Sentinel e \<Rightarrow> None)"

definition add_same :: "bignum \<Rightarrow> bignum \<Rightarrow> (bignum \<times> bignum) option" where
  "add_same this bigNumber =
     do { an \<leftarrow> limbs_of this;
          bn \<leftarrow> limbs_of bigNumber;
          let this' = BigNum (Limbs (BigNumber_add an bn)) (sign this) (rest this);
          Some (this', this') }"

definition subtract_core :: "bignum \<Rightarrow> bignum \<Rightarrow> (bignum \<times> bignum) option" where
  "subtract_core this bigNumber =
     (if sign this \<noteq> sign bigNumber then add_same this bigNumber
      else
        do { an \<leftarrow> limbs_of this;
             bn \<leftarrow> limbs_of bigNumber;
             let s = (if lt_core this bigNumber then - 1 else 1);
             let num = (if lt_core (abs_copy (BigNum (number this) s (rest this)))
                                  (abs_copy bigNumber)
                        then BigNumber_subtract bn an
                        else BigNumber_subtract an bn);
             let this' = BigNum (Limbs num) s (rest this);
             Some (this', this') })"

definition add_core :: "bignum \<Rightarrow> bignum \<Rightarrow> (bignum \<times> bignum) option" where
  "add_core this bigNumber =
     (if sign this \<noteq> sign bigNumber then
        (if sign this > 0
         then subtract_core this (BigNum (number bigNumber) 1 (rest bigNumber))
         else
           (let this' = BigNum (number this) 1 (rest this)
            in do { (b', ret) \<leftarrow> subtract_core bigNumber this';
                    Some (this', ret) }))
      else add_same this bigNumber)"

section \<open>Multiplier\<close>

function mult_inner :: "int \<Rightarrow> int list \<Rightarrow> nat \<Rightarrow> nat \<Rightarrow> int \<Rightarrow> int list \<Rightarrow> int list" where
  "mult_inner x bn index givenNumberIndex remainder result =
     (if givenNumberIndex < length bn \<or> remainder > 0 then
        (let r = remainder + (nth0 result (index + givenNumberIndex) + x * nth0 bn givenNumberIndex)
         in mult_inner x bn index (givenNumberIndex + 1) (r div base)
              (store result (index + givenNumberIndex) (jsmod r base)))
      else result)"
  by pat_completeness auto
termination
  by (relation "measures [\<lambda>(x, bn, index, j, remainder, result).
                             max (length bn) (length result - index) - j,
                          \<lambda>(x, bn, index, j, remainder, result). nat remainder]")
     (auto simp: nth0_def store_def base_def max_def split: if_splits)

declare mult_inner.simps [simp del]

function mult_outer :: "int list \<Rightarrow> int list \<Rightarrow> nat \<Rightarrow> int list \<Rightarrow> int list" where
  "mult_outer an bn index result =
     (if index < length an
      then mult_outer an bn (index + 1) (mult_inner (an ! index) bn index 0 0 result)
      else result)"
  by pat_completeness auto
termination
  by (relation "measure (\<lambda>(an, bn, index, result). length an - index)") auto

declare mult_outer.simps [simp del]

text \<open>The same two loops, returning besides the array the successive values that the
  variable \<^verbatim>\<open>remainder\<close> takes right after \<^verbatim>\<open>remainder += ...\<close>, before it is reduced
  and divided by the base: the largest native numbers the multiplication forms.\<close>

function mult_inner_values :: "int \<Rightarrow> int list \<Rightarrow> nat \<Rightarrow> nat \<Rightarrow> int \<Rightarrow> int list \<Rightarrow> int list \<times> int list" where
  "mult_inner_values x bn index givenNumberIndex remainder result =
     (if givenNumberIndex < length bn \<or> remainder > 0 then
        (let r = remainder + (nth0 result (index + givenNumberIndex) + x * nth0 bn givenNumberIndex)
         in case mult_inner_values x bn index (givenNumberIndex + 1) (r div base)
                   (store result (index + givenNumberIndex) (jsmod r base))
            of (result', values) \<Rightarrow> (result', r # values))
      else (result, []))"
  by pat_completeness auto
termination
  by (relation "measures [\<lambda>(x, bn, index, j, remainder, result).
                             max (length bn) (length result - index) - j,
                          \<lambda>(x, bn, index, j, remainder, result). nat remainder]")
     (auto simp: nth0_def store_def base_def max_def split: if_splits)

declare mult_inner_values.simps [simp del]

function mult_outer_values :: "int list \<Rightarrow> int list \<Rightarrow> nat \<Rightarrow> int list \<Rightarrow> int list \<times> int list" where
  "mult_outer_values an bn index result =
     (if index < length an
      then (case mult_inner_values (an ! index) bn index 0 0 result of
              (result', values) \<Rightarrow>
                (case mult_outer_values an bn (index + 1) result' of
                   (result'', values') \<Rightarrow> (result'', values @ values')))
      else (result, []))"
  by pat_completeness auto
termination
  by (relation "measure (\<lambda>(an, bn, index, result). length an - index)") auto

declare mult_outer_values.simps [simp del]

definition multiply_core :: "bignum \<Rightarrow> bignum \<Rightarrow> (bignum \<times> bignum) option" where
  "multiply_core this bigNumber =
     (if isZero this \<or> isZero bigNumber then Some (this, BigNumber_zero)
      else
        do { an \<leftarrow> limbs_of this;
             bn \<leftarrow> limbs_of bigNumber;
             let this' = BigNum (Limbs (mult_outer an bn 0 [])) (sign this * sign bigNumber)
                           (rest this);
             Some (this', this') })"

section \<open>Divider\<close>

text \<open>The fast path of \<^verbatim>\<open>divide\<close> for a divisor of one limb, on native numbers.
  The first argument counts the indices still to visit, from the most significant down;
  \<^verbatim>\<open>result[index]\<close> is written in that order, so the array is built from its end.
  All the values stay below 2^53, where the native division followed by
  \<^verbatim>\<open>Math.floor\<close> is the integer quotient.\<close>

fun native_loop :: "nat \<Rightarrow> int list \<Rightarrow> int \<Rightarrow> int \<Rightarrow> int list \<Rightarrow> int list \<times> int" where
  "native_loop 0 an nativebigNumber nativerest result = (result, nativerest)"
| "native_loop (Suc index) an nativebigNumber nativerest result =
     (let nr = nativerest * base + an ! index;
          q = nr div nativebigNumber
      in native_loop index an nativebigNumber (nr - q * nativebigNumber) (q # result))"

text \<open>Of the statistics \<^verbatim>\<open>BigNumber.stats\<close> the embedding keeps the two counters of
  division, as the increments one call makes: \<^verbatim>\<open>divs.count\<close>, advanced once after
  the loop over the limbs, and \<^verbatim>\<open>divs.iterations\<close>, advanced once for every
  subtraction of the generic path.\<close>

datatype divs = Divs (divs_count: nat) (divs_iterations: nat)

text \<open>The generic path. \<^verbatim>\<open>while (bigNumber.lte(rest))\<close> may in principle run for
  ever, so not returning is the value \<open>None\<close>. The last argument is the counter
  \<^verbatim>\<open>divs.iterations\<close>.\<close>

partial_function (option) sub_while :: "bignum \<Rightarrow> int \<Rightarrow> int \<Rightarrow> bignum \<Rightarrow> nat \<Rightarrow> (int \<times> bignum \<times> nat) option" where
  "sub_while bigNumber divisor q rest' iterations =
     (if lte_core bigNumber rest' then
        (case subtract_core rest' bigNumber of
           None \<Rightarrow> None
         | Some (rest'', ret) \<Rightarrow> sub_while bigNumber divisor (q + divisor) rest'' (iterations + 1))
      else Some (q, rest', iterations))"

declare sub_while.simps [code]

fun factor_loop :: "int list \<Rightarrow> bignum \<Rightarrow> int \<Rightarrow> int \<Rightarrow> int \<Rightarrow> bignum \<Rightarrow> nat \<Rightarrow> (int \<times> bignum \<times> nat) option" where
  "factor_loop [] bigNumber divisor digit q rest' iterations = Some (q, rest', iterations)"
| "factor_loop (f # fs) bigNumber divisor digit q rest' iterations =
     do { let divisor' = divisor div f;
          (rest1, r1) \<leftarrow> multiply_core rest' (BigNumber_native f);
          (rest2, r2) \<leftarrow> add_core rest1 (BigNumber_native (digit div divisor'));
          let digit' = jsmod digit divisor';
          (q', rest3, iterations') \<leftarrow> sub_while bigNumber divisor' q rest2 iterations;
          factor_loop fs bigNumber divisor' digit' q' rest3 iterations' }"

fun generic_loop :: "nat \<Rightarrow> int list \<Rightarrow> int list \<Rightarrow> bignum \<Rightarrow> bignum \<Rightarrow> int list \<Rightarrow> nat \<Rightarrow> (int list \<times> bignum \<times> nat) option" where
  "generic_loop 0 fs an bigNumber rest' result iterations = Some (result, rest', iterations)"
| "generic_loop (Suc index) fs an bigNumber rest' result iterations =
     do { (q, rest'', iterations') \<leftarrow> factor_loop fs bigNumber base (an ! index) 0 rest' iterations;
          generic_loop index fs an bigNumber rest'' (q # result) iterations' }"

definition nativebigNumber_of :: "bignum \<Rightarrow> int" where
  "nativebigNumber_of bigNumber = (case number bigNumber of Limbs [x] \<Rightarrow> x | _ \<Rightarrow> 0)"

text \<open>The body of \<^verbatim>\<open>divide\<close>, with the test \<^verbatim>\<open>if (nativebigNumber)\<close> that selects
  the fast path passed as the first argument. Besides the receiver and the returned
  object it gives the increments of the two counters: the three early returns leave both
  counters alone.\<close>

definition divide_path :: "bool \<Rightarrow> bignum \<Rightarrow> bignum \<Rightarrow> ((bignum \<times> bignum) \<times> divs) option" where
  "divide_path native this bigNumber =
     (if isZero bigNumber then
        (let this' = BigNum (Sentinel division_by_zero) (sign this) (rest this)
         in Some ((this', this'), Divs 0 0))
      else if isZero this then Some ((this, BigNumber_zero), Divs 0 0)
      else
        (let s = sign this * sign bigNumber;
             divisor = BigNum (number bigNumber) 1 (rest bigNumber)
         in if number bigNumber = Limbs [1]
            then Some ((BigNum (number this) s (rest this), BigNum (number this) s (rest this)),
                       Divs 0 0)
            else
              do { an \<leftarrow> limbs_of this;
                   (result, r, iterations) \<leftarrow>
                     (if native
                      then (case native_loop (length an) an (nativebigNumber_of bigNumber) 0 []
                            of (result, nativerest) \<Rightarrow>
                                 Some (result, BigNumber_native nativerest, 0))
                      else do { fs \<leftarrow> factors;
                                generic_loop (length an) fs an divisor BigNumber_zero [] 0 });
                   let this' = BigNum (Limbs (strip_zeroes result)) s (Some r);
                   Some ((this', this'), Divs 1 iterations) }))"

text \<open>\<^verbatim>\<open>divide\<close> after the conversion of its argument: the test is on
  \<^verbatim>\<open>nativebigNumber\<close>, the only limb of a divisor of one limb and 0 otherwise.\<close>

definition divide_stats :: "bignum \<Rightarrow> bignum \<Rightarrow> ((bignum \<times> bignum) \<times> divs) option" where
  "divide_stats this bigNumber = divide_path (nativebigNumber_of bigNumber \<noteq> 0) this bigNumber"

definition divide_core :: "bignum \<Rightarrow> bignum \<Rightarrow> (bignum \<times> bignum) option" where
  "divide_core this bigNumber = map_option fst (divide_stats this bigNumber)"

section \<open>Exponentiator\<close>

function pow_loop :: "int \<Rightarrow> bignum \<Rightarrow> bignum \<Rightarrow> bignum option" where
  "pow_loop n this bigNumber =
     (if n > 0 then
        (if jsmod n 2 = 1 then
           (case multiply_core this bigNumber of
              None \<Rightarrow> None
            | Some (this', ret) \<Rightarrow> pow_loop (n - 1) this' bigNumber)
         else
           (case multiply_core bigNumber bigNumber of
              None \<Rightarrow> None
            | Some (bigNumber', ret) \<Rightarrow> pow_loop (n div 2) this bigNumber'))
      else Some this)"
  by pat_completeness auto
termination
  by (relation "measure (\<lambda>(n, this, bigNumber). nat n)") auto

declare pow_loop.simps [simp del]

text \<open>\<^verbatim>\<open>power\<close>: the outer \<open>None\<close> is as for the other methods; the returned
  object is \<open>None\<close> when the call returns \<^verbatim>\<open>undefined\<close>.\<close>

definition power_bn :: "bignum \<Rightarrow> int option \<Rightarrow> (bignum \<times> bignum option) option" where
  "power_bn this number' =
     (case number' of
        None \<Rightarrow> Some (this, None)
      | Some n \<Rightarrow>
          (if n = 0 then Some (this, Some (BigNumber_native 1))
           else if n = 1 then Some (this, Some this)
           else
             (case pow_loop n (BigNum (Limbs [1]) (sign this) (rest this)) (BigNumber_copy this) of
                None \<Rightarrow> None
              | Some this' \<Rightarrow> Some (this', Some this'))))"

definition abs_bn :: "bignum \<Rightarrow> bignum" where
  "abs_bn this = BigNum (number this) 1 (rest this)"

section \<open>Stringifier\<close>

function string_of_nat :: "nat \<Rightarrow> string" where
  "string_of_nat n =
     (if n < 10 then [char_of (48 + n)] else string_of_nat (n div 10) @ [char_of (48 + n mod 10)])"
  by pat_completeness auto
termination
  by (relation "measure id") auto

declare string_of_nat.simps [simp del]

definition string_of_int :: "int \<Rightarrow> string" where
  "string_of_int i = (if i < 0 then CHR ''-'' # string_of_nat (nat (- i)) else string_of_nat (nat i))"

fun singleDigit_loop :: "int list \<Rightarrow> int \<Rightarrow> int \<Rightarrow> int" where
  "singleDigit_loop [] digit multiplier = digit"
| "singleDigit_loop (x # xs) digit multiplier =
     (if digit < 10 then singleDigit_loop xs (digit + multiplier * x) (multiplier * base)
      else digit)"

definition singleDigit :: "bignum \<Rightarrow> string option" where
  "singleDigit this =
     do { an \<leftarrow> limbs_of this;
          let digit = singleDigit_loop an 0 1;
          Some (if digit < 10 then string_of_int digit else []) }"

text \<open>The loop of \<^verbatim>\<open>toString\<close>. The call \<^verbatim>\<open>clone.div(ten).rest._singleDigit()\<close>
  has no value when the field \<^verbatim>\<open>rest\<close> of the returned object is the native 0.\<close>

partial_function (option) toString_loop :: "bignum \<Rightarrow> string \<Rightarrow> string option" where
  "toString_loop clone str =
     (if \<not> isZero clone then
        (case divide_core clone (BigNumber_native 10) of
           None \<Rightarrow> None
         | Some (clone', ret) \<Rightarrow>
             (case rest ret of
                None \<Rightarrow> None
              | Some r \<Rightarrow>
                  (case singleDigit r of
                     None \<Rightarrow> None
                   | Some d \<Rightarrow> toString_loop clone' (d @ str))))
      else Some str)"

declare toString_loop.simps [code]

definition toString :: "bignum \<Rightarrow> string option" where
  "toString this =
     (case number this of
        Sentinel e \<Rightarrow> Some (errors e)
      | Limbs xs \<Rightarrow>
          do { str \<leftarrow> toString_loop (abs_bn (BigNumber_copy this)) [];
               let str' = (if length str = 0 then ''0'' else str);
               Some (if sign this > 0 then str' else CHR ''-'' # str') })"

section \<open>Constructor from a string or an array\<close>

text \<open>\<^verbatim>\<open>addDigit\<close>, given the object \<^verbatim>\<open>BigNumber(digit)\<close> of a digit that passed
  \<^verbatim>\<open>testDigit\<close>: the pair of the receiver and of \<^verbatim>\<open>multipleoftens\<close> afterwards.\<close>

definition addDigit :: "bignum \<Rightarrow> bignum \<Rightarrow> bignum \<Rightarrow> (bignum \<times> bignum) option" where
  "addDigit this multipleoftens digit =
     do { (d', term) \<leftarrow> multiply_core digit multipleoftens;
          (this', r) \<leftarrow> add_core this term;
          (multipleoftens', r') \<leftarrow> multiply_core multipleoftens (BigNumber_native 10);
          Some (this', multipleoftens') }"

text \<open>The loop over the digits, last one first. An element that fails \<^verbatim>\<open>testDigit\<close>
  (\<open>None\<close> in the list) stores the sentinel and ends the construction, with the sign
  the object has at that moment.\<close>

fun addDigits :: "bignum option list \<Rightarrow> bignum \<Rightarrow> bignum \<Rightarrow> (bool \<times> bignum) option" where
  "addDigits [] this multipleoftens = Some (True, this)"
| "addDigits (None # ds) this multipleoftens =
     Some (False, BigNum (Sentinel invalid) (sign this) (rest this))"
| "addDigits (Some digit # ds) this multipleoftens =
     do { (this', multipleoftens') \<leftarrow> addDigit this multipleoftens digit;
          addDigits ds this' multipleoftens' }"

definition construct :: "int \<Rightarrow> bignum option list \<Rightarrow> bignum option" where
  "construct sign' ds =
     do { (ok, this) \<leftarrow> addDigits ds (BigNum (Limbs []) 1 None) (BigNumber_native 1);
          Some (if ok then BigNum (number this) sign' (rest this) else this) }"

text \<open>A character of the string goes through \<^verbatim>\<open>parseInt(c, 10)\<close>, which is a number
  for a decimal digit and NaN otherwise; NaN fails \<^verbatim>\<open>testDigit\<close>.\<close>

definition char_digit :: "char \<Rightarrow> bignum option" where
  "char_digit c = map_option BigNumber_native (digit_of_char c)"

definition BigNumber_string :: "string \<Rightarrow> bignum option" where
  "BigNumber_string initialNumber =
     (if initialNumber = [] then Some BigNumber_zero
      else if hd initialNumber = CHR ''-'' \<or> hd initialNumber = CHR ''+''
      then construct (if hd initialNumber = CHR ''+'' then 1 else - 1)
             (map char_digit (rev (tl initialNumber)))
      else construct 1 (map char_digit (rev initialNumber)))"

text \<open>An element of an array passes \<^verbatim>\<open>testDigit\<close> when its string form is one decimal
  digit; \<^verbatim>\<open>BigNumber(digit)\<close> is then built from the number or from the
  one-character string.\<close>

definition elem_digit :: "elem \<Rightarrow> bignum option" where
  "elem_digit e =
     (case e of
        ENum n \<Rightarrow> (if 0 \<le> n \<and> n \<le> 9 then Some (BigNumber_native n) else None)
      | EStr s \<Rightarrow> (if length s = 1 \<and> digit_of_char (hd s) \<noteq> None then BigNumber_string s
                   else None))"

text \<open>The array case returns the array as the constructor leaves it:
  \<^verbatim>\<open>initialNumber.shift(0)\<close> removes the sign token from the caller's array.\<close>

definition BigNumber_array :: "elem list \<Rightarrow> (bignum \<times> elem list) option" where
  "BigNumber_array initialNumber =
     (if (length initialNumber \<noteq> 0 \<and> hd initialNumber = EStr ''-'')
         \<or> (initialNumber \<noteq> [] \<and> hd initialNumber = EStr ''+'')
      then map_option (\<lambda>b. (b, tl initialNumber))
             (construct (if hd initialNumber = EStr ''+'' then 1 else - 1)
                (map elem_digit (rev (tl initialNumber))))
      else map_option (\<lambda>b. (b, initialNumber))
             (construct 1 (map elem_digit (rev initialNumber))))"

text \<open>The constructor: the new object, and the argument as the call leaves it.\<close>

fun BigNumber :: "input \<Rightarrow> (bignum \<times> input) option" where
  "BigNumber Undefined = Some (BigNumber_zero, Undefined)"
| "BigNumber (Native n) = Some (BigNumber_native n, Native n)"
| "BigNumber (Obj b) = Some (BigNumber_copy b, Obj b)"
| "BigNumber (Str s) = map_option (\<lambda>b. (b, Str s)) (BigNumber_string s)"
| "BigNumber (Arr a) = map_option (\<lambda>(b, a'). (b, Arr a')) (BigNumber_array a)"

section \<open>The public methods\<close>

text \<open>Each method returns the receiver at once when called with no argument, and
  otherwise converts the argument with the constructor first.\<close>

definition add :: "bignum \<Rightarrow> input \<Rightarrow> (bignum \<times> bignum) option" where
  "add this number' =
     (if number' = Undefined then Some (this, this)
      else do { (bigNumber, a) \<leftarrow> BigNumber number'; add_core this bigNumber })"

definition subtract :: "bignum \<Rightarrow> input \<Rightarrow> (bignum \<times> bignum) option" where
  "subtract this number' =
     (if number' = Undefined then Some (this, this)
      else do { (bigNumber, a) \<leftarrow> BigNumber number'; subtract_core this bigNumber })"

definition multiply :: "bignum \<Rightarrow> input \<Rightarrow> (bignum \<times> bignum) option" where
  "multiply this number' =
     (if number' = Undefined then Some (this, this)
      else do { (bigNumber, a) \<leftarrow> BigNumber number'; multiply_core this bigNumber })"

definition divide :: "bignum \<Rightarrow> input \<Rightarrow> (bignum \<times> bignum) option" where
  "divide this number' =
     (if number' = Undefined then Some (this, this)
      else do { (bigNumber, a) \<leftarrow> BigNumber number'; divide_core this bigNumber })"

text \<open>\<^verbatim>\<open>mod\<close> returns the field \<^verbatim>\<open>rest\<close> of what \<^verbatim>\<open>divide\<close> returns: the native 0
  (\<open>None\<close>) or a remainder object.\<close>

definition mod_bn :: "bignum \<Rightarrow> input \<Rightarrow> (bignum \<times> bignum option) option" where
  "mod_bn this number' = map_option (\<lambda>(this', ret). (this', rest ret)) (divide this number')"

definition compare_bn :: "bignum \<Rightarrow> input \<Rightarrow> int option" where
  "compare_bn this number' =
     (if number' = Undefined then Some 0
      else map_option (\<lambda>(bigNumber, a). compare_core this bigNumber) (BigNumber number'))"

section \<open>Notions used in the proofs\<close>

text \<open>An object of one limb, as the native constructor builds it.\<close>

definition single :: "int \<Rightarrow> bignum" where
  "single r = BigNum (Limbs [r]) 1 None"

text \<open>The limbs of a value below twice the base, and the object that holds them.\<close>

definition limbs2 :: "int \<Rightarrow> int list" where
  "limbs2 v = (if v < base then [v] else [v - base, 1])"

definition wide :: "int \<Rightarrow> bignum" where
  "wide v = BigNum (Limbs (limbs2 v)) 1 None"

text \<open>The fast path in the words of the specification: scan the limbs from the most
  significant one, keeping a native running remainder \<open>r\<close>; at each limb
  \<open>r = r * BASE + limb\<close>, \<open>quotientLimb = floor (r / divisorValue)\<close>,
  \<open>r -= quotientLimb * divisorValue\<close>. The limbs are given, and the quotient limbs
  returned, most significant first.\<close>

fun spec_fast_path :: "int list \<Rightarrow> int \<Rightarrow> int \<Rightarrow> int list \<times> int" where
  "spec_fast_path [] divisorValue r = ([], r)"
| "spec_fast_path (limb # limbs) divisorValue r =
     (let r1 = r * base + limb;
          quotientLimb = r1 div divisorValue;
          r2 = r1 - quotientLimb * divisorValue
      in case spec_fast_path limbs divisorValue r2 of (qs, r') \<Rightarrow> (quotientLimb # qs, r'))"

text \<open>A limb, and a native value of the multiplication that is within the range the
  engine takes to be exact and leaves a carry below the base.\<close>

definition limb :: "int \<Rightarrow> bool" where
  "limb x = (0 \<le> x \<and> x < base)"

definition exact_value :: "int \<Rightarrow> bool" where
  "exact_value v = (0 \<le> v \<and> v < assumed_exact \<and> limb (v div base))"

text \<open>The number field holds an array.\<close>

definition is_limbs :: "bignum \<Rightarrow> bool" where
  "is_limbs b = (case number b of Limbs xs \<Rightarrow> True | Sentinel e \<Rightarrow> False)"

text \<open>The characters of a string after its optional sign.\<close>

definition unsigned :: "string \<Rightarrow> string" where
  "unsigned s = (if hd s = CHR ''-'' \<or> hd s = CHR ''+'' then tl s else s)"

section \<open>The limb base\<close>

lemma base_pos: "0 < base"
  by (simp add: base_def)

text \<open>Claim C7, as stated, fails: the base is not the largest power of two whose square
  stays within the largest exactly representable native integer, because 2^26 is a
  larger one.\<close>

theorem base_not_largest: "(2 ^ 26 :: int) * 2 ^ 26 \<le> MAX_SAFE_INTEGER \<and> base < 2 ^ 26"
  by (simp add: MAX_SAFE_INTEGER_def base_def)

lemma mult_inner_values_fst:
  "fst (mult_inner_values x bn index j c result) = mult_inner x bn index j c result"
proof (induction x bn index j c result rule: mult_inner.induct)
  case (1 x bn index j c result)
  show ?case
  proof (cases "j < length bn \<or> c > 0")
    case True
    then show ?thesis
      using 1 [OF True refl]
      by (subst mult_inner_values.simps, subst mult_inner.simps)
         (auto simp: Let_def split: prod.splits)
  next
    case False
    then show ?thesis
      by (subst mult_inner_values.simps, subst mult_inner.simps) simp
  qed
qed

lemma mult_outer_values_fst:
  "fst (mult_outer_values an bn index result) = mult_outer an bn index result"
proof (induction an bn index result rule: mult_outer.induct)
  case (1 an bn index result)
  show ?case
  proof (cases "index < length an")
    case True
    have i: "fst (mult_inner_values (an ! index) bn index 0 0 result)
             = mult_inner (an ! index) bn index 0 0 result"
      by (rule mult_inner_values_fst)
    show ?thesis
      using 1 [OF True] i
      by (subst mult_outer_values.simps, subst mult_outer.simps)
         (auto simp: True split: prod.splits)
  next
    case False
    then show ?thesis
      by (subst mult_outer_values.simps, subst mult_outer.simps) simp
  qed
qed

lemma store_limbs: "list_all limb xs \<Longrightarrow> limb v \<Longrightarrow> list_all limb (store xs i v)"
  by (auto simp: store_def list_all_iff dest: set_update_subset_insert [THEN subsetD])

lemma nth0_limb: "list_all limb xs \<Longrightarrow> limb (nth0 xs i)"
  by (simp add: nth0_def list_all_length limb_def base_pos)

lemma step_bounds:
  assumes "limb x" "limb y" "limb c" "limb e"
  shows "0 \<le> c + (e + x * y)" "c + (e + x * y) < base * base"
    "limb ((c + (e + x * y)) div base)" "limb (jsmod (c + (e + x * y)) base)"
proof -
  have p: "0 < base" by (rule base_pos)
  have xy: "0 \<le> x * y" using assms by (simp add: limb_def)
  have "x * y \<le> (base - 1) * (base - 1)" using assms by (intro mult_mono) (auto simp: limb_def)
  then have u: "c + (e + x * y) \<le> (base - 1) + ((base - 1) + (base - 1) * (base - 1))"
    using assms by (simp add: limb_def)
  have "(base - 1) + ((base - 1) + (base - 1) * (base - 1)) = base * base - 1"
    by (simp add: algebra_simps)
  then have v: "c + (e + x * y) < base * base" using u by simp
  show n: "0 \<le> c + (e + x * y)" using assms xy by (simp add: limb_def)
  show "c + (e + x * y) < base * base" by (rule v)
  have "(c + (e + x * y)) div base < base"
  proof (rule ccontr)
    assume "\<not> (c + (e + x * y)) div base < base"
    then have "base * base \<le> base * ((c + (e + x * y)) div base)"
      using p by (intro mult_left_mono) auto
    moreover have "base * ((c + (e + x * y)) div base) + (c + (e + x * y)) mod base
                   = c + (e + x * y)" by simp
    moreover have "0 \<le> (c + (e + x * y)) mod base" using p by simp
    ultimately show False using v by linarith
  qed
  moreover have "0 \<le> (c + (e + x * y)) div base" using n p by (simp add: pos_imp_zdiv_nonneg_iff)
  ultimately show "limb ((c + (e + x * y)) div base)" by (simp add: limb_def)
  show "limb (jsmod (c + (e + x * y)) base)"
    using n p by (simp add: jsmod_def limb_def)
qed


lemma mult_inner_values_bounds:
  assumes "limb x" "list_all limb bn" "limb c" "list_all limb result"
  shows "list_all limb (fst (mult_inner_values x bn index j c result))
         \<and> list_all exact_value (snd (mult_inner_values x bn index j c result))"
  using assms
proof (induction x bn index j c result rule: mult_inner_values.induct)
  case (1 x bn index j c result)
  show ?case
  proof (cases "j < length bn \<or> c > 0")
    case True
    define r where "r = c + (nth0 result (index + j) + x * nth0 bn j)"
    have e: "limb (nth0 result (index + j))" "limb (nth0 bn j)"
      using 1(3,5) by (simp_all add: nth0_limb)
    have b: "0 \<le> r" "r < base * base" "limb (r div base)" "limb (jsmod r base)"
      using step_bounds [OF 1(2) e(2) 1(4) e(1)] by (simp_all add: r_def)
    have st: "list_all limb (store result (index + j) (jsmod r base))"
      using 1(5) b(4) by (rule store_limbs)
    have ih: "list_all limb (fst (mult_inner_values x bn index (j + 1) (r div base)
                 (store result (index + j) (jsmod r base))))
         \<and> list_all exact_value (snd (mult_inner_values x bn index (j + 1) (r div base)
                 (store result (index + j) (jsmod r base))))"
      using "1.IH" [OF True refl] 1(2,3) b(3) st by (simp add: r_def)
    have ev: "exact_value r" using b by (simp add: exact_value_def assumed_exact_def base_def)
    show ?thesis
      using True ih ev
      by (subst (1 2) mult_inner_values.simps)
         (auto simp: Let_def r_def [symmetric] split: prod.splits)
  next
    case False
    then show ?thesis using 1(5)
      by (subst (1 2) mult_inner_values.simps) simp
  qed
qed


lemma mult_outer_values_bounds:
  assumes "list_all limb an" "list_all limb bn" "list_all limb result"
  shows "list_all limb (fst (mult_outer_values an bn index result))
         \<and> list_all exact_value (snd (mult_outer_values an bn index result))"
  using assms
proof (induction an bn index result rule: mult_outer_values.induct)
  case (1 an bn index result)
  show ?case
  proof (cases "index < length an")
    case True
    obtain res vs where i: "mult_inner_values (an ! index) bn index 0 0 result = (res, vs)"
      by (cases "mult_inner_values (an ! index) bn index 0 0 result")
    have x: "limb (an ! index)" using 1(2) True by (simp add: list_all_length)
    have z: "limb 0" by (simp add: limb_def base_pos)
    have ib: "list_all limb res" "list_all exact_value vs"
      using mult_inner_values_bounds [OF x 1(3) z 1(4), of index 0] i by simp_all
    have ih: "list_all limb (fst (mult_outer_values an bn (index + 1) res))
         \<and> list_all exact_value (snd (mult_outer_values an bn (index + 1) res))"
      using "1.IH" [OF True i [symmetric] 1(2,3) ib(1)] by simp
    show ?thesis
      using True i ib ih
      by (subst (1 2) mult_outer_values.simps) (auto split: prod.splits)
  next
    case False
    then show ?thesis using 1(4)
      by (subst (1 2) mult_outer_values.simps) simp
  qed
qed

text \<open>Claim C7, amended, for the engine with the power-of-two base and the table of
  prime factors: the base is the constant 2^25, the largest power of two whose square does
  not exceed 2^50, the bound up to which the engine takes native integers to be exact
  (itself below the true bound 2^53 - 1). When the limbs of both operands are below the
  base, every value the multiplication loops form in \<^verbatim>\<open>remainder\<close> is non-negative and
  below that bound, every carry is below the base, and the limbs of the product are below
  the base again.\<close>

theorem base_bound:
  "base = 2 ^ 25 \<and> base * base \<le> assumed_exact \<and> assumed_exact \<le> MAX_SAFE_INTEGER
   \<and> ((2::int) ^ k * 2 ^ k \<le> assumed_exact \<longrightarrow> 2 ^ k \<le> base)
   \<and> (list_all limb an \<and> list_all limb bn \<longrightarrow>
        fst (mult_outer_values an bn 0 []) = mult_outer an bn 0 []
        \<and> list_all exact_value (snd (mult_outer_values an bn 0 []))
        \<and> list_all limb (mult_outer an bn 0 []))"
proof -
  have a: "(2::int) ^ k * 2 ^ k \<le> assumed_exact \<longrightarrow> 2 ^ k \<le> base"
  proof
    assume "(2::int) ^ k * 2 ^ k \<le> assumed_exact"
    then have "(2::int) ^ (k + k) \<le> 2 ^ 50" by (simp add: assumed_exact_def power_add)
    then have "k + k \<le> 50" by (simp only: power_increasing_iff)
    then have "k \<le> 25" by simp
    then have "(2::int) ^ k \<le> 2 ^ 25" by (intro power_increasing) auto
    then show "(2::int) ^ k \<le> base" by (simp only: base_def)
  qed
  have b: "list_all limb an \<and> list_all limb bn \<longrightarrow>
        fst (mult_outer_values an bn 0 []) = mult_outer an bn 0 []
        \<and> list_all exact_value (snd (mult_outer_values an bn 0 []))
        \<and> list_all limb (mult_outer an bn 0 [])"
  proof
    assume h: "list_all limb an \<and> list_all limb bn"
    have e: "list_all limb []" by simp
    have "list_all limb (fst (mult_outer_values an bn 0 []))
         \<and> list_all exact_value (snd (mult_outer_values an bn 0 []))"
      using h e by (intro mult_outer_values_bounds) simp_all
    then show "fst (mult_outer_values an bn 0 []) = mult_outer an bn 0 []
        \<and> list_all exact_value (snd (mult_outer_values an bn 0 []))
        \<and> list_all limb (mult_outer an bn 0 [])"
      by (simp add: mult_outer_values_fst)
  qed
  have c: "base = 2 ^ 25 \<and> base * base \<le> assumed_exact \<and> assumed_exact \<le> MAX_SAFE_INTEGER"
    by (simp add: base_def assumed_exact_def MAX_SAFE_INTEGER_def)
  show ?thesis using a b c by (intro conjI) simp_all
qed

theorem base_bound_witness:
  "(2::int) ^ 25 \<le> base
   \<and> fst (mult_outer_values [33554431, 33554431] [33554431, 7] 0 [])
       = mult_outer [33554431, 33554431] [33554431, 7] 0 []
   \<and> list_all exact_value (snd (mult_outer_values [33554431, 33554431] [33554431, 7] 0 []))
   \<and> list_all limb (mult_outer [33554431, 33554431] [33554431, 7] 0 [])"
proof -
  note t = base_bound [of 25 "[33554431, 33554431]" "[33554431, 7]"]
  have 1: "(2::int) ^ 25 * 2 ^ 25 \<le> assumed_exact" by (simp add: assumed_exact_def)
  have 2: "list_all limb [33554431, 33554431] \<and> list_all limb [33554431, 7]"
    by (simp add: limb_def base_def)
  have a: "(2::int) ^ 25 \<le> base"
    by (rule t [THEN conjunct2, THEN conjunct2, THEN conjunct2, THEN conjunct1, THEN mp, OF 1])
  have b: "fst (mult_outer_values [33554431, 33554431] [33554431, 7] 0 [])
       = mult_outer [33554431, 33554431] [33554431, 7] 0 []
   \<and> list_all exact_value (snd (mult_outer_values [33554431, 33554431] [33554431, 7] 0 []))
   \<and> list_all limb (mult_outer [33554431, 33554431] [33554431, 7] 0 [])"
    by (rule t [THEN conjunct2, THEN conjunct2, THEN conjunct2, THEN conjunct2, THEN mp, OF 2])
  show ?thesis using a b by (intro conjI) simp_all
qed

section \<open>Calls without an argument\<close>

text \<open>Claim C10: \<^verbatim>\<open>power\<close> called with no argument returns \<^verbatim>\<open>undefined\<close>, whereas
  \<^verbatim>\<open>add\<close>, \<^verbatim>\<open>subtract\<close>, \<^verbatim>\<open>multiply\<close> and \<^verbatim>\<open>divide\<close> called with no argument
  each return the receiver unchanged.\<close>

theorem no_argument:
  "power_bn this None = Some (this, None)
   \<and> add this Undefined = Some (this, this)
   \<and> subtract this Undefined = Some (this, this)
   \<and> multiply this Undefined = Some (this, this)
   \<and> divide this Undefined = Some (this, this)"
  by (simp add: power_bn_def add_def subtract_def multiply_def divide_def)

section \<open>Signs of zero and of remainders\<close>

text \<open>Claim C4 at its failing inputs: the string "-0" builds a zero with sign -1, and
  -3 divided by 5 gives a quotient that is rendered as "-0".\<close>

theorem negative_zero:
  "map_option (\<lambda>(b, a). (number b, sign b)) (BigNumber (Str ''-0'')) = Some (Limbs [0], - 1)
   \<and> (do { (t, q) \<leftarrow> divide (BigNumber_native (- 3)) (Native 5); toString q }) = Some ''-0''"
  by code_simp

text \<open>Claim C5 at its failing input: the string "-0" is rendered back as "-0", not as
  its normal form "0".\<close>

theorem roundtrip_negative_zero:
  "(do { (b, a) \<leftarrow> BigNumber (Str ''-0''); toString b }) = Some ''-0''"
  by code_simp

text \<open>Claim C1 at its failing input: -7 divided by 2 gives the quotient -3 and the
  remainder +1, and (-3) * 2 + 1 is -5.\<close>

theorem divide_negative_dividend:
  "map_option snd (divide (BigNumber_native (- 7)) (Native 2))
     = Some (BigNum (Limbs [3]) (- 1) (Some (BigNum (Limbs [1]) 1 None)))"
  by code_simp

text \<open>Claim C6 at its failing input: after 7 divided by 2 the receiver is 3 with the
  remainder 1; a division of that receiver by 1 leaves the remainder 1 in place, and
  \<^verbatim>\<open>mod\<close> reports it, although 3 mod 1 is 0.\<close>

theorem stale_remainder:
  "(do { (a1, q1) \<leftarrow> divide (BigNumber_native 7) (Native 2);
         (a2, m) \<leftarrow> mod_bn a1 (Native 1);
         Some (number a2, m) })
     = Some (Limbs [3], Some (BigNum (Limbs [1]) 1 None))"
  by code_simp

section \<open>Exponentiation\<close>

text \<open>Claim C3 at its failing inputs: 0 to the power 2 is rendered as "1", and -2 to the
  power 2 as "-4".\<close>

theorem power_of_zero:
  "(do { (t, r) \<leftarrow> power_bn (BigNumber_native 0) (Some 2); Option.bind r toString }) = Some ''1''
   \<and> (do { (t, r) \<leftarrow> power_bn (BigNumber_native (- 2)) (Some 2); Option.bind r toString })
       = Some ''-4''"
  by code_simp

section \<open>Construction and its argument\<close>

text \<open>Claim C9 at its failing input: constructing from the array ['-', 5, 1, 7] leaves
  the caller's array as [5, 1, 7].\<close>

theorem array_loses_sign_token:
  "map_option snd (BigNumber (Arr [EStr ''-'', ENum 5, ENum 1, ENum 7]))
     = Some (Arr [ENum 5, ENum 1, ENum 7])"
  by code_simp

section \<open>Error states\<close>

text \<open>Claim C2, as stated, fails: the value built from "51s7" is in the InvalidFormat
  state, yet multiplying it by 0 returns a value rendered as "0", and comparing it with 5
  returns the number 1.\<close>

theorem error_not_sticky:
  "(do { (b, a) \<leftarrow> BigNumber (Str ''51s7'');
         s \<leftarrow> toString b;
         (t, r) \<leftarrow> multiply b (Native 0);
         s' \<leftarrow> toString r;
         c \<leftarrow> compare_bn b (Native 5);
         Some (s, s', c) }) = Some (''Invalid Number'', ''0'', 1)"
  by code_simp

section \<open>The fast path of division against the generic path\<close>

lemma native_small: "0 \<le> r \<Longrightarrow> r < base \<Longrightarrow> BigNumber_native r = single r"
  by (simp add: BigNumber_native_def BigNumber_zero_def single_def jsmod_def base_def
        native_limbs.simps [of r] native_limbs.simps [of 0])

lemma wide_small: "v < base \<Longrightarrow> wide v = single v"
  by (simp add: wide_def single_def limbs2_def)

lemma jsmod_base: "0 \<le> a \<Longrightarrow> jsmod a base = a mod base"
  by (simp add: jsmod_def base_def)

lemma small_div: "0 \<le> a \<Longrightarrow> a < base \<Longrightarrow> a div base = 0"
  by (rule div_pos_pos_trivial)

lemma small_mod: "0 \<le> a \<Longrightarrow> a < base \<Longrightarrow> a mod base = a"
  by (rule mod_pos_pos_trivial)

lemma carry_div:
  assumes "base \<le> a" "a < 2 * base"
  shows "a div base = 1"
proof -
  have "a div base = (a - base + base) div base" by simp
  also have "\<dots> = (a - base) div base + 1"
    using div_add_self2 [of base "a - base"] by (simp add: base_def)
  also have "(a - base) div base = 0" using assms by (intro div_pos_pos_trivial) auto
  finally show ?thesis by simp
qed

lemma carry_mod:
  assumes "base \<le> a" "a < 2 * base"
  shows "a mod base = a - base"
proof -
  have "a mod base = (a - base + base) mod base" by simp
  also have "\<dots> = (a - base) mod base" by (simp only: mod_add_self2)
  also have "\<dots> = a - base" using assms by (intro mod_pos_pos_trivial) auto
  finally show ?thesis .
qed

lemma one_base: "1 div base = 0" "1 mod base = 1" "2 div base = 0" "2 mod base = 2"
  by (simp_all add: base_def)

lemmas mult_inner_unfold = mult_inner.simps [of _ _ _ 0] mult_inner.simps [of _ _ _ "Suc 0"]
  mult_inner.simps [of _ _ _ "Suc (Suc 0)"] mult_inner.simps [of _ _ _ 2]
lemmas mult_outer_unfold = mult_outer.simps [of _ _ 0] mult_outer.simps [of _ _ "Suc 0"]
lemmas add_loop_unfold = add_loop.simps [of 0] add_loop.simps [of "Suc 0"]
  add_loop.simps [of "Suc (Suc 0)"] add_loop.simps [of 2]
lemmas sub_loop_unfold = sub_loop.simps [of 0] sub_loop.simps [of "Suc 0"]
  sub_loop.simps [of "Suc (Suc 0)"] sub_loop.simps [of 2]
lemmas count_zeroes_unfold = count_zeroes.simps [of _ _ 0] count_zeroes.simps [of _ _ "Suc 0"]
  count_zeroes.simps [of _ _ "Suc (Suc 0)"]

lemma mult2_limbs:
  assumes "0 < t" "t < 2 * base" "r * 2 = t"
  shows "mult_outer [r] [2] 0 [] = limbs2 t"
proof (cases "t < base")
  case True
  then show ?thesis using assms
    by (simp add: mult_outer_unfold mult_inner_unfold nth0_def store_def jsmod_base Let_def
          limbs2_def small_div small_mod)
next
  case False
  then show ?thesis using assms
    by (simp add: mult_outer_unfold mult_inner_unfold nth0_def store_def jsmod_base Let_def
          limbs2_def carry_div carry_mod one_base)
qed

lemma multiply_two:
  assumes "0 < r" "r < base"
  shows "multiply_core (single r) (BigNumber_native 2) = Some (wide (2 * r), wide (2 * r))"
proof -
  have n2: "BigNumber_native 2 = single 2" by (rule native_small) (simp_all add: base_def)
  have "mult_outer [r] [2] 0 [] = limbs2 (2 * r)" using assms by (intro mult2_limbs) auto
  then show ?thesis using assms
    by (simp add: multiply_core_def n2 single_def wide_def limbs_of_def Let_def)
qed

lemma multiply_two_zero:
  "multiply_core (single 0) (BigNumber_native 2) = Some (single 0, BigNumber_zero)"
  by (simp add: multiply_core_def single_def)

lemma add_bit_limbs:
  assumes "0 \<le> v" "0 \<le> w" "w < 2 * base" "v + bt = w" "bt = 0 \<or> bt = 1"
  shows "BigNumber_add (limbs2 v) [bt] = limbs2 w"
proof -
  consider (s) "w < base" | (c) "v < base" "base \<le> w" | (l) "base \<le> v"
    by linarith
  then show ?thesis
  proof cases
    case s
    then have "v < base" using assms by auto
    then show ?thesis using assms s
      by (simp add: BigNumber_add_def add_loop_unfold nth0_def store_def jsmod_base Let_def
            limbs2_def small_div small_mod)
  next
    case c
    then show ?thesis using assms
      by (simp add: BigNumber_add_def add_loop_unfold nth0_def store_def jsmod_base Let_def
            limbs2_def carry_div carry_mod one_base)
  next
    case l
    then have w: "base \<le> w" using assms by auto
    have e: "v - base + bt = w - base" using assms by simp
    have f: "0 \<le> w - base" "w - base < base" using w assms by auto
    show ?thesis using assms l w
      by (simp add: BigNumber_add_def add_loop_unfold nth0_def store_def jsmod_base Let_def
            limbs2_def e small_div [OF f] small_mod [OF f] one_base carry_div carry_mod)
  qed
qed


lemma add_bit:
  assumes "0 \<le> v" "v + bt < 2 * base" "bt = 0 \<or> bt = 1"
  shows "add_core (wide v) (BigNumber_native bt) = Some (wide (v + bt), wide (v + bt))"
proof -
  have n: "BigNumber_native bt = single bt" using assms by (intro native_small) (auto simp: base_def)
  have "BigNumber_add (limbs2 v) [bt] = limbs2 (v + bt)"
    using assms by (intro add_bit_limbs) auto
  then show ?thesis
    by (simp add: add_core_def add_same_def n single_def wide_def limbs_of_def Let_def)
qed

lemma lte_single:
  assumes "0 \<le> v" "v < 2 * base" "0 < d" "d < base"
  shows "lte_core (BigNum (Limbs [d]) 1 rr) (wide v) = (d \<le> v)"
  using assms by (auto simp: lte_core_def compare_core_def wide_def limbs2_def)

lemma lt_wide:
  assumes "d \<le> v" "v < 2 * base" "0 < d" "d < base"
  shows "lt_core (BigNum (Limbs (limbs2 v)) 1 rr') (BigNum (Limbs [d]) 1 rr) = False"
  using assms by (auto simp: lt_core_def compare_core_def limbs2_def)

lemma subtract_limbs:
  assumes "d \<le> v" "v < 2 * d" "0 < d" "d < base"
  shows "BigNumber_subtract (limbs2 v) [d] = [v - d]"
proof (cases "v < base")
  case True
  then show ?thesis using assms
    by (simp add: BigNumber_subtract_def sub_loop_unfold strip_zeroes_def count_zeroes_unfold
          nth0_def limbs2_def Let_def)
next
  case False
  then have "v - base - d < 0" using assms by simp
  then show ?thesis using assms False
    by (simp add: BigNumber_subtract_def sub_loop_unfold strip_zeroes_def count_zeroes_unfold
          nth0_def limbs2_def Let_def)
qed

lemma subtract_single:
  assumes "d \<le> v" "v < 2 * d" "0 < d" "d < base"
  shows "subtract_core (wide v) (BigNum (Limbs [d]) 1 rr) = Some (single (v - d), single (v - d))"
proof -
  have v: "v < 2 * base" using assms by simp
  show ?thesis
    using subtract_limbs [OF assms] lt_wide [OF assms(1) v assms(3,4)]
    by (simp add: subtract_core_def wide_def single_def limbs_of_def abs_copy_def Let_def)
qed

lemma sub_while_single:
  assumes "0 \<le> v" "v < 2 * d" "0 < d" "d < base"
  shows "sub_while (BigNum (Limbs [d]) 1 rr) dv q (wide v) it
         = Some (q + dv * (v div d), single (v mod d), it + nat (v div d))"
proof (cases "d \<le> v")
  case True
  have v: "v < 2 * base" using assms by simp
  have r: "0 \<le> v - d" "v - d < d" using True assms by auto
  have "v div d = 1" "v mod d = v - d"
    using True assms
    by (metis add.commute diff_add_cancel div_add_self2 div_pos_pos_trivial r less_irrefl add_0,
        metis diff_add_cancel mod_add_self2 mod_pos_pos_trivial r)
  moreover have "sub_while (BigNum (Limbs [d]) 1 rr) dv (q + dv) (single (v - d)) (it + 1)
                 = Some (q + dv, single (v - d), it + 1)"
    using lte_single [of "v - d" d rr] r assms
    by (subst sub_while.simps) (simp add: wide_small [symmetric])
  ultimately show ?thesis
    using lte_single [OF assms(1) v assms(3,4), of rr] True subtract_single [OF True assms(2,3,4), of rr]
    by (subst sub_while.simps) simp
next
  case False
  then have "v div d = 0" "v mod d = v" using assms by auto
  then show ?thesis
    using lte_single [of v d rr] False assms
    by (subst sub_while.simps) (simp add: wide_small)
qed

lemma multiply_two_any:
  assumes "0 \<le> r" "r < base"
  shows "\<exists>ret. multiply_core (single r) (BigNumber_native 2) = Some (wide (2 * r), ret)"
proof (cases "r = 0")
  case True
  then show ?thesis by (simp add: multiply_two_zero wide_small base_pos)
next
  case False
  then show ?thesis using assms multiply_two [of r] by simp
qed

lemma split_digit:
  fixes r d v digit :: int
  assumes "0 < d" "v = 2 * r + digit div 2 ^ k"
  shows "(r * 2 ^ Suc k + digit) div d
           = 2 ^ k * (v div d) + ((v mod d) * 2 ^ k + digit mod 2 ^ k) div d"
    and "(r * 2 ^ Suc k + digit) mod d = ((v mod d) * 2 ^ k + digit mod 2 ^ k) mod d"
proof -
  have e0: "r * 2 ^ Suc k + digit = 2 ^ k * v + digit mod 2 ^ k"
    using assms(2) by (simp add: algebra_simps)
  have "2 ^ k * v = 2 ^ k * (d * (v div d) + v mod d)" by simp
  also have "\<dots> = (v mod d) * 2 ^ k + d * (2 ^ k * (v div d))"
    by (simp only: distrib_left mult.assoc mult.commute mult.left_commute add.commute)
  finally have "2 ^ k * v = (v mod d) * 2 ^ k + d * (2 ^ k * (v div d))" .
  then have e: "r * 2 ^ Suc k + digit
      = ((v mod d) * 2 ^ k + digit mod 2 ^ k) + d * (2 ^ k * (v div d))"
    using e0 by simp
  show "(r * 2 ^ Suc k + digit) div d
           = 2 ^ k * (v div d) + ((v mod d) * 2 ^ k + digit mod 2 ^ k) div d"
    using assms(1) by (simp only: e div_mult_self2)
  show "(r * 2 ^ Suc k + digit) mod d = ((v mod d) * 2 ^ k + digit mod 2 ^ k) mod d"
    by (simp only: e mod_mult_self2)
qed

lemma factor_loop_single:
  assumes "0 \<le> r" "r < d" "0 < d" "d < base" "0 \<le> digit" "digit < 2 ^ k"
  shows "\<exists>n. factor_loop (replicate k 2) (BigNum (Limbs [d]) 1 rr) (2 ^ k) digit q (single r) it
         = Some (q + (r * 2 ^ k + digit) div d, single ((r * 2 ^ k + digit) mod d), n)"
  using assms
proof (induction k arbitrary: r digit q it)
  case 0
  then have "digit = 0" by simp
  then show ?case using 0 by simp
next
  case (Suc k)
  define bt where "bt = digit div 2 ^ k"
  define v where "v = 2 * r + bt"
  have p: "(0::int) < 2 ^ k" by simp
  have bt: "bt = 0 \<or> bt = 1"
  proof -
    have "0 \<le> bt" using Suc.prems p by (simp add: bt_def pos_imp_zdiv_nonneg_iff)
    moreover have "bt < 2"
    proof (rule ccontr)
      assume "\<not> bt < 2"
      then have "2 ^ k * 2 \<le> 2 ^ k * bt" using p by (intro mult_left_mono) auto
      moreover have "2 ^ k * bt + digit mod 2 ^ k = digit" by (simp add: bt_def)
      moreover have "0 \<le> digit mod 2 ^ k" using p by simp
      moreover have "digit < 2 ^ k * 2" using Suc.prems by simp
      ultimately show False by linarith
    qed
    ultimately show ?thesis by auto
  qed
  have v: "0 \<le> v" "v < 2 * d" "v < 2 * base" using Suc.prems bt by (auto simp: v_def)
  have dm: "jsmod digit (2 ^ k) = digit mod 2 ^ k" using Suc.prems by (simp add: jsmod_def)
  obtain ret where m: "multiply_core (single r) (BigNumber_native 2) = Some (wide (2 * r), ret)"
    using multiply_two_any [of r] Suc.prems by auto
  have a: "add_core (wide (2 * r)) (BigNumber_native bt) = Some (wide v, wide v)"
    using add_bit [of "2 * r" bt] Suc.prems v bt by (simp add: v_def)
  have s: "sub_while (BigNum (Limbs [d]) 1 rr) (2 ^ k) q (wide v) it
             = Some (q + 2 ^ k * (v div d), single (v mod d), it + nat (v div d))"
    using sub_while_single [of v d rr "2 ^ k" q it] v Suc.prems by simp
  obtain n where ih: "factor_loop (replicate k 2) (BigNum (Limbs [d]) 1 rr) (2 ^ k) (digit mod 2 ^ k)
               (q + 2 ^ k * (v div d)) (single (v mod d)) (it + nat (v div d))
            = Some (q + 2 ^ k * (v div d) + ((v mod d) * 2 ^ k + digit mod 2 ^ k) div d,
                    single (((v mod d) * 2 ^ k + digit mod 2 ^ k) mod d), n)"
    using Suc.IH [of "v mod d" "digit mod 2 ^ k" "q + 2 ^ k * (v div d)" "it + nat (v div d)"]
      Suc.prems by auto
  have sp: "(r * 2 ^ Suc k + digit) div d
           = 2 ^ k * (v div d) + ((v mod d) * 2 ^ k + digit mod 2 ^ k) div d"
     "(r * 2 ^ Suc k + digit) mod d = ((v mod d) * 2 ^ k + digit mod 2 ^ k) mod d"
    using split_digit [of d v r digit k] Suc.prems by (simp_all add: v_def bt_def)
  have "factor_loop (replicate (Suc k) 2) (BigNum (Limbs [d]) 1 rr) (2 ^ Suc k) digit q (single r) it
        = factor_loop (replicate k 2) (BigNum (Limbs [d]) 1 rr) (2 ^ k) (digit mod 2 ^ k)
               (q + 2 ^ k * (v div d)) (single (v mod d)) (it + nat (v div d))"
    using m a s dm by (simp add: bt_def [symmetric] Let_def)
  then have "factor_loop (replicate (Suc k) 2) (BigNum (Limbs [d]) 1 rr) (2 ^ Suc k) digit q (single r) it
        = Some (q + (r * 2 ^ Suc k + digit) div d, single ((r * 2 ^ Suc k + digit) mod d), n)"
    by (simp only: ih sp) simp
  then show ?case by blast
qed

lemma native_step:
  fixes d :: int
  assumes "0 < d"
  shows "nr - nr div d * d = nr mod d"
  by (simp add: minus_div_mult_eq_mod)

lemma generic_is_native:
  assumes "0 < d" "d < base" "0 \<le> r" "r < d" "n \<le> length an"
    and "list_all (\<lambda>x. 0 \<le> x \<and> x < base) an"
  shows "\<exists>m. generic_loop n (replicate 25 2) an (BigNum (Limbs [d]) 1 rr) (single r) result it
         = Some (fst (native_loop n an d r result),
                 BigNumber_native (snd (native_loop n an d r result)), m)"
  using assms
proof (induction n arbitrary: r result it)
  case 0
  then show ?case by (simp add: native_small)
next
  case (Suc n)
  have x: "0 \<le> an ! n" "an ! n < base"
    using Suc.prems by (auto simp: list_all_length)
  have b: "base = 2 ^ 25" by (simp add: base_def)
  define nr where "nr = r * base + an ! n"
  obtain it' where f: "factor_loop (replicate 25 2) (BigNum (Limbs [d]) 1 rr) base (an ! n) 0 (single r) it
           = Some (nr div d, single (nr mod d), it')"
    using factor_loop_single [of r d "an ! n" 25 rr 0 it, folded b] Suc.prems x
    by (auto simp: nr_def)
  have m: "0 \<le> nr mod d" "nr mod d < d" using Suc.prems by simp_all
  obtain m' where ih: "generic_loop n (replicate 25 2) an (BigNum (Limbs [d]) 1 rr) (single (nr mod d))
              (nr div d # result) it'
            = Some (fst (native_loop n an d (nr mod d) (nr div d # result)),
                    BigNumber_native (snd (native_loop n an d (nr mod d) (nr div d # result))), m')"
    using Suc.IH [of "nr mod d" "nr div d # result" it'] Suc.prems m by auto
  have "generic_loop (Suc n) (replicate 25 2) an (BigNum (Limbs [d]) 1 rr) (single r) result it
         = Some (fst (native_loop (Suc n) an d r result),
                 BigNumber_native (snd (native_loop (Suc n) an d r result)), m')"
    using f ih Suc.prems by (simp add: nr_def [symmetric] Let_def native_step)
  then show ?case by blast
qed

lemma factors_value: "factors = Some (replicate 25 2)"
  by code_simp

lemma native_loop_spec:
  "n \<le> length an \<Longrightarrow>
   native_loop n an d r result
     = (case spec_fast_path (rev (take n an)) d r of (qs, r') \<Rightarrow> (rev qs @ result, r'))"
proof (induction n arbitrary: r result)
  case 0
  then show ?case by simp
next
  case (Suc n)
  then have t: "take (Suc n) an = take n an @ [an ! n]"
    by (simp add: take_Suc_conv_app_nth)
  show ?case using Suc by (simp add: t Let_def split: prod.splits)
qed



lemma native_path:
  assumes "number this = Limbs an" "number bigNumber = Limbs [d]" "d \<noteq> 1"
    and "\<not> isZero this" "\<not> isZero bigNumber"
    and "spec_fast_path (rev an) d 0 = (qs, r)"
  shows "divide_path True this bigNumber
         = Some ((BigNum (Limbs (strip_zeroes (rev qs))) (sign this * sign bigNumber)
                    (Some (BigNumber_native r)),
                  BigNum (Limbs (strip_zeroes (rev qs))) (sign this * sign bigNumber)
                    (Some (BigNumber_native r))), Divs 1 0)"
proof -
  have nb: "nativebigNumber_of bigNumber = d"
    using assms by (simp add: nativebigNumber_of_def)
  have lo: "limbs_of this = Some an"
    using assms by (simp add: limbs_of_def)
  have nl: "native_loop (length an) an d 0 [] = (rev qs, r)"
    using native_loop_spec [of "length an" an d 0 "[]"] assms(6) by simp
  show ?thesis
    using assms(3,4,5) by (simp add: divide_path_def nb lo nl Let_def assms(2))
qed

lemma generic_path:
  assumes "number this = Limbs an" "list_all (\<lambda>x. 0 \<le> x \<and> x < base) an"
    and "number bigNumber = Limbs [d]" "0 < d" "d < base" "d \<noteq> 1"
    and "\<not> isZero this" "\<not> isZero bigNumber"
    and "spec_fast_path (rev an) d 0 = (qs, r)"
  shows "\<exists>m. divide_path False this bigNumber
         = Some ((BigNum (Limbs (strip_zeroes (rev qs))) (sign this * sign bigNumber)
                    (Some (BigNumber_native r)),
                  BigNum (Limbs (strip_zeroes (rev qs))) (sign this * sign bigNumber)
                    (Some (BigNumber_native r))), Divs 1 m)"
proof -
  have lo: "limbs_of this = Some an"
    using assms by (simp add: limbs_of_def)
  have nl: "native_loop (length an) an d 0 [] = (rev qs, r)"
    using native_loop_spec [of "length an" an d 0 "[]"] assms(9) by simp
  obtain m where g: "generic_loop (length an) (replicate 25 2) an
             (BigNum (Limbs [d]) 1 (rest bigNumber)) BigNumber_zero [] 0
           = Some (rev qs, BigNumber_native r, m)"
    using generic_is_native [of d 0 "length an" an "rest bigNumber" "[]" 0] assms(2,4,5) nl
    by (auto simp: BigNumber_zero_def single_def)
  have "divide_path False this bigNumber
         = Some ((BigNum (Limbs (strip_zeroes (rev qs))) (sign this * sign bigNumber)
                    (Some (BigNumber_native r)),
                  BigNum (Limbs (strip_zeroes (rev qs))) (sign this * sign bigNumber)
                    (Some (BigNumber_native r))), Divs 1 m)"
    using assms(6,7,8) by (simp add: divide_path_def lo g factors_value Let_def assms(3))
  then show ?thesis by blast
qed

text \<open>Claim C8, as stated, fails: a divisor of 1 and a zero dividend return before the
  loop over the limbs, so the fast path is not taken (neither counter of division moves
  and no remainder object is built); and after 7 divided by 2, dividing the receiver 3 by 1
  leaves the remainder 1, where the running remainder of the fast path gives 0.\<close>

theorem guards_skip_fast_path:
  "divide_stats (BigNumber_native 5) (BigNumber_native 1)
     = Some ((BigNum (Limbs [5]) 1 None, BigNum (Limbs [5]) 1 None), Divs 0 0)
   \<and> divide_stats (BigNumber_native 0) (BigNumber_native 5)
     = Some ((BigNum (Limbs [0]) 1 None, BigNum (Limbs [0]) 1 None), Divs 0 0)
   \<and> (do { (a1, q1) \<leftarrow> divide (BigNumber_native 7) (Native 2);
            (a2, q2) \<leftarrow> divide a1 (Native 1);
            Some (number q2, rest q2) })
     = Some (Limbs [3], Some (BigNum (Limbs [1]) 1 None))
   \<and> spec_fast_path (rev [3]) 1 0 = ([3], 0)"
  by code_simp

text \<open>Claim C8, amended: for a dividend whose limbs lie in [0, base) and a nonzero divisor
  of one limb below the base, when the dividend is not zero and the divisor is not 1,
  \<^verbatim>\<open>divide\<close> takes the native fast path: it returns the quotient and the remainder
  that the running remainder scheme computes, and it advances the counter of divisions
  once and the counter of the generic path's subtractions not at all. The generic path
  over the prime factors of the base gives exactly the same receiver, quotient and
  remainder on the same inputs. A zero dividend returns a new zero, and a divisor of 1
  returns the receiver with the product of the signs, both before the loop over the limbs
  and with both counters left alone.\<close>

theorem fast_path_refines_generic:
  assumes "number this = Limbs an" "list_all (\<lambda>x. 0 \<le> x \<and> x < base) an"
    and "number bigNumber = Limbs [d]" "0 < d" "d < base"
  shows "(\<not> isZero this \<and> d \<noteq> 1 \<longrightarrow>
            (case spec_fast_path (rev an) d 0 of
               (qs, r) \<Rightarrow>
                 divide_stats this bigNumber
                   = Some ((BigNum (Limbs (strip_zeroes (rev qs))) (sign this * sign bigNumber)
                              (Some (BigNumber_native r)),
                            BigNum (Limbs (strip_zeroes (rev qs))) (sign this * sign bigNumber)
                              (Some (BigNumber_native r))), Divs 1 0)
                 \<and> map_option fst (divide_path False this bigNumber)
                   = map_option fst (divide_stats this bigNumber)
                 \<and> divide_core this bigNumber = map_option fst (divide_path False this bigNumber)))
         \<and> (isZero this \<longrightarrow>
              divide_stats this bigNumber = Some ((this, BigNumber_zero), Divs 0 0))
         \<and> (\<not> isZero this \<and> d = 1 \<longrightarrow>
              (\<exists>t. divide_stats this bigNumber = Some ((t, t), Divs 0 0)
                    \<and> number t = number this \<and> sign t = sign this * sign bigNumber))"
proof (intro conjI impI)
  have nb: "nativebigNumber_of bigNumber = d"
    using assms by (simp add: nativebigNumber_of_def)
  have z: "\<not> isZero bigNumber" using assms by (cases bigNumber) simp
  {
    assume h: "\<not> isZero this \<and> d \<noteq> 1"
    obtain qs r where sp: "spec_fast_path (rev an) d 0 = (qs, r)" by (cases "spec_fast_path (rev an) d 0")
    have n: "divide_stats this bigNumber
         = Some ((BigNum (Limbs (strip_zeroes (rev qs))) (sign this * sign bigNumber)
                    (Some (BigNumber_native r)),
                  BigNum (Limbs (strip_zeroes (rev qs))) (sign this * sign bigNumber)
                    (Some (BigNumber_native r))), Divs 1 0)"
      using native_path [OF assms(1,3) _ _ z sp] h assms(4) by (simp add: divide_stats_def nb)
    obtain m where g: "divide_path False this bigNumber
         = Some ((BigNum (Limbs (strip_zeroes (rev qs))) (sign this * sign bigNumber)
                    (Some (BigNumber_native r)),
                  BigNum (Limbs (strip_zeroes (rev qs))) (sign this * sign bigNumber)
                    (Some (BigNumber_native r))), Divs 1 m)"
      using generic_path [OF assms _ _ z sp] h by blast
    show "case spec_fast_path (rev an) d 0 of
               (qs, r) \<Rightarrow>
                 divide_stats this bigNumber
                   = Some ((BigNum (Limbs (strip_zeroes (rev qs))) (sign this * sign bigNumber)
                              (Some (BigNumber_native r)),
                            BigNum (Limbs (strip_zeroes (rev qs))) (sign this * sign bigNumber)
                              (Some (BigNumber_native r))), Divs 1 0)
                 \<and> map_option fst (divide_path False this bigNumber)
                   = map_option fst (divide_stats this bigNumber)
                 \<and> divide_core this bigNumber = map_option fst (divide_path False this bigNumber)"
      by (simp add: sp n g divide_core_def)
  }
  {
    assume "isZero this"
    then show "divide_stats this bigNumber = Some ((this, BigNumber_zero), Divs 0 0)"
      using z by (simp add: divide_stats_def divide_path_def)
  }
  {
    assume h: "\<not> isZero this \<and> d = 1"
    then have "divide_stats this bigNumber
        = Some ((BigNum (number this) (sign this * sign bigNumber) (rest this),
                 BigNum (number this) (sign this * sign bigNumber) (rest this)), Divs 0 0)"
      using z assms(3) by (simp add: divide_stats_def divide_path_def Let_def)
    then show "\<exists>t. divide_stats this bigNumber = Some ((t, t), Divs 0 0)
                    \<and> number t = number this \<and> sign t = sign this * sign bigNumber"
      by simp
  }
qed

theorem fast_path_refines_generic_witness:
  "(case spec_fast_path (rev [5, 7, 3]) 153 0 of
      (qs, r) \<Rightarrow>
        divide_stats (BigNum (Limbs [5, 7, 3]) 1 None) (BigNum (Limbs [153]) (- 1) None)
          = Some ((BigNum (Limbs (strip_zeroes (rev qs))) (1 * - 1) (Some (BigNumber_native r)),
                   BigNum (Limbs (strip_zeroes (rev qs))) (1 * - 1) (Some (BigNumber_native r))),
                  Divs 1 0)
        \<and> map_option fst (divide_path False (BigNum (Limbs [5, 7, 3]) 1 None)
                                           (BigNum (Limbs [153]) (- 1) None))
          = map_option fst (divide_stats (BigNum (Limbs [5, 7, 3]) 1 None)
                                         (BigNum (Limbs [153]) (- 1) None))
        \<and> divide_core (BigNum (Limbs [5, 7, 3]) 1 None) (BigNum (Limbs [153]) (- 1) None)
          = map_option fst (divide_path False (BigNum (Limbs [5, 7, 3]) 1 None)
                                              (BigNum (Limbs [153]) (- 1) None)))
   \<and> divide_stats (BigNum (Limbs [0, 0]) (- 1) None) (BigNum (Limbs [153]) 1 None)
       = Some ((BigNum (Limbs [0, 0]) (- 1) None, BigNumber_zero), Divs 0 0)
   \<and> (\<exists>t. divide_stats (BigNum (Limbs [5, 7, 3]) 1 None) (BigNum (Limbs [1]) (- 1) None)
             = Some ((t, t), Divs 0 0)
           \<and> number t = Limbs [5, 7, 3] \<and> sign t = 1 * - 1)"
proof -
  have h: "number (BigNum (Limbs [5, 7, 3]) 1 None) = Limbs [5, 7, 3]"
    "list_all (\<lambda>x. 0 \<le> x \<and> x < base) [5, 7, 3]"
    "number (BigNum (Limbs [153]) (- 1) None) = Limbs [153]"
    "(0::int) < 153" "153 < base"
    by (simp_all add: base_def)
  have n: "\<not> isZero (BigNum (Limbs [5, 7, 3]) 1 None) \<and> (153::int) \<noteq> 1" by simp
  have a: "case spec_fast_path (rev [5, 7, 3]) 153 0 of
      (qs, r) \<Rightarrow>
        divide_stats (BigNum (Limbs [5, 7, 3]) 1 None) (BigNum (Limbs [153]) (- 1) None)
          = Some ((BigNum (Limbs (strip_zeroes (rev qs))) (1 * - 1) (Some (BigNumber_native r)),
                   BigNum (Limbs (strip_zeroes (rev qs))) (1 * - 1) (Some (BigNumber_native r))),
                  Divs 1 0)
        \<and> map_option fst (divide_path False (BigNum (Limbs [5, 7, 3]) 1 None)
                                           (BigNum (Limbs [153]) (- 1) None))
          = map_option fst (divide_stats (BigNum (Limbs [5, 7, 3]) 1 None)
                                         (BigNum (Limbs [153]) (- 1) None))
        \<and> divide_core (BigNum (Limbs [5, 7, 3]) 1 None) (BigNum (Limbs [153]) (- 1) None)
          = map_option fst (divide_path False (BigNum (Limbs [5, 7, 3]) 1 None)
                                              (BigNum (Limbs [153]) (- 1) None))"
    using fast_path_refines_generic [OF h, THEN conjunct1, THEN mp, OF n]
    by (simp only: bignum.sel)
  have hz: "number (BigNum (Limbs [0, 0]) (- 1) None) = Limbs [0, 0]"
    "list_all (\<lambda>x. 0 \<le> x \<and> x < base) [0, 0]"
    "number (BigNum (Limbs [153]) 1 None) = Limbs [153]"
    by (simp_all add: base_def)
  have z: "isZero (BigNum (Limbs [0, 0]) (- 1) None)" by simp
  have b: "divide_stats (BigNum (Limbs [0, 0]) (- 1) None) (BigNum (Limbs [153]) 1 None)
       = Some ((BigNum (Limbs [0, 0]) (- 1) None, BigNumber_zero), Divs 0 0)"
    by (rule fast_path_refines_generic [OF hz h(4,5), THEN conjunct2, THEN conjunct1, THEN mp, OF z])
  have h1: "number (BigNum (Limbs [1]) (- 1) None) = Limbs [1]" "(0::int) < 1" "1 < base"
    by (simp_all add: base_def)
  have n1: "\<not> isZero (BigNum (Limbs [5, 7, 3]) 1 None) \<and> (1::int) = 1" by simp
  have c: "\<exists>t. divide_stats (BigNum (Limbs [5, 7, 3]) 1 None) (BigNum (Limbs [1]) (- 1) None)
             = Some ((t, t), Divs 0 0)
           \<and> number t = Limbs [5, 7, 3] \<and> sign t = 1 * - 1"
    using fast_path_refines_generic [OF h(1,2) h1, THEN conjunct2, THEN conjunct2, THEN mp, OF n1]
    by (simp only: bignum.sel)
  show ?thesis using a b c by (intro conjI)
qed

section \<open>Where error states arise and how they are rendered\<close>

lemma is_limbs_native: "is_limbs (BigNumber_native n)"
  by (simp add: is_limbs_def BigNumber_native_def BigNumber_zero_def)

lemma is_limbs_of: "is_limbs b \<Longrightarrow> \<exists>xs. limbs_of b = Some xs"
  by (simp add: is_limbs_def limbs_of_def split: numfield.splits)

lemma is_limbs_multiply:
  assumes "is_limbs a" "is_limbs b"
  shows "\<exists>t r. multiply_core a b = Some (t, r) \<and> is_limbs t \<and> is_limbs r"
proof -
  obtain xs ys where "limbs_of a = Some xs" "limbs_of b = Some ys"
    using assms is_limbs_of by blast
  then show ?thesis using assms
    by (simp add: multiply_core_def Let_def is_limbs_def BigNumber_zero_def)
qed

lemma is_limbs_add_same:
  assumes "is_limbs a" "is_limbs b"
  shows "\<exists>t r. add_same a b = Some (t, r) \<and> is_limbs t \<and> is_limbs r"
proof -
  obtain xs ys where "limbs_of a = Some xs" "limbs_of b = Some ys"
    using assms is_limbs_of by blast
  then show ?thesis by (simp add: add_same_def Let_def is_limbs_def)
qed

lemma is_limbs_subtract:
  assumes "is_limbs a" "is_limbs b"
  shows "\<exists>t r. subtract_core a b = Some (t, r) \<and> is_limbs t \<and> is_limbs r"
proof (cases "sign a \<noteq> sign b")
  case True
  then show ?thesis using is_limbs_add_same [OF assms] by (simp add: subtract_core_def)
next
  case False
  obtain xs ys where "limbs_of a = Some xs" "limbs_of b = Some ys"
    using assms is_limbs_of by blast
  then show ?thesis using False by (simp add: subtract_core_def Let_def is_limbs_def)
qed

lemma is_limbs_add:
  assumes "is_limbs a" "is_limbs b"
  shows "\<exists>t r. add_core a b = Some (t, r) \<and> is_limbs t \<and> is_limbs r"
proof -
  have b1: "is_limbs (BigNum (number b) 1 (rest b))" using assms by (simp add: is_limbs_def)
  have a1: "is_limbs (BigNum (number a) 1 (rest a))" using assms by (simp add: is_limbs_def)
  show ?thesis
    using is_limbs_add_same [OF assms] is_limbs_subtract [OF assms(1) b1]
      is_limbs_subtract [OF assms(2) a1] a1
    by (auto simp: add_core_def Let_def)
qed

lemma is_limbs_addDigit:
  assumes "is_limbs this" "is_limbs m" "is_limbs digit"
  shows "\<exists>t m'. addDigit this m digit = Some (t, m') \<and> is_limbs t \<and> is_limbs m'"
proof -
  obtain d' trm where 1: "multiply_core digit m = Some (d', trm)" "is_limbs trm"
    using is_limbs_multiply [OF assms(3,2)] by blast
  obtain t r where 2: "add_core this trm = Some (t, r)" "is_limbs t"
    using is_limbs_add [OF assms(1) 1(2)] by blast
  obtain m' r' where 3: "multiply_core m (BigNumber_native 10) = Some (m', r')" "is_limbs m'"
    using is_limbs_multiply [OF assms(2) is_limbs_native] by blast
  show ?thesis using 1 2 3 by (simp add: addDigit_def)
qed

lemma addDigits_invalid:
  assumes "is_limbs this" "is_limbs m" "\<not> list_all (\<lambda>c. digit_of_char c \<noteq> None) cs"
  shows "\<exists>t. addDigits (map char_digit cs) this m = Some (False, t) \<and> number t = Sentinel invalid"
  using assms
proof (induction cs arbitrary: this m)
  case Nil
  then show ?case by simp
next
  case (Cons c cs)
  show ?case
  proof (cases "digit_of_char c")
    case None
    then show ?thesis by (simp add: char_digit_def)
  next
    case (Some d)
    then have cd: "char_digit c = Some (BigNumber_native d)" by (simp add: char_digit_def)
    obtain t m' where s: "addDigit this m (BigNumber_native d) = Some (t, m')" "is_limbs t" "is_limbs m'"
      using is_limbs_addDigit [OF Cons.prems(1,2) is_limbs_native] by blast
    have "\<not> list_all (\<lambda>c. digit_of_char c \<noteq> None) cs" using Cons.prems Some by simp
    then show ?thesis using Cons.IH [OF s(2,3)] s(1) cd by simp
  qed
qed

lemma construct_invalid:
  assumes "\<not> list_all (\<lambda>c. digit_of_char c \<noteq> None) cs"
  shows "\<exists>t. construct sg (map char_digit (rev cs)) = Some t \<and> number t = Sentinel invalid"
proof -
  have "\<not> list_all (\<lambda>c. digit_of_char c \<noteq> None) (rev cs)" using assms by (simp add: list_all_iff)
  then obtain t where "addDigits (map char_digit (rev cs)) (BigNum (Limbs []) 1 None) (BigNumber_native 1)
       = Some (False, t)" "number t = Sentinel invalid"
    using addDigits_invalid [of "BigNum (Limbs []) 1 None" "BigNumber_native 1" "rev cs"] is_limbs_native
    by (auto simp: is_limbs_def)
  then show ?thesis by (simp add: construct_def)
qed

lemma toString_sentinel: "number b = Sentinel e \<Longrightarrow> toString b = Some (errors e)"
  by (simp add: toString_def)

lemma toString_copy: "number b = Sentinel e \<Longrightarrow> toString (BigNumber_copy b) = Some (errors e)"
  by (simp add: toString_def BigNumber_copy_def)

lemma divide_by_zero:
  assumes "isZero bigNumber"
  shows "\<exists>t. divide_core this bigNumber = Some (t, t)
           \<and> toString t = Some ''Invalid Number - Division By Zero''"
proof -
  have "divide_core this bigNumber
        = Some (BigNum (Sentinel division_by_zero) (sign this) (rest this),
                BigNum (Sentinel division_by_zero) (sign this) (rest this))"
    using assms by (simp add: divide_core_def divide_stats_def divide_path_def Let_def)
  moreover have "toString (BigNum (Sentinel division_by_zero) (sign this) (rest this))
        = Some ''Invalid Number - Division By Zero''"
    by (simp add: toString_def)
  ultimately show ?thesis by blast
qed

lemma string_invalid:
  assumes "s \<noteq> []" "\<not> list_all (\<lambda>c. digit_of_char c \<noteq> None) (unsigned s)"
  shows "\<exists>t. BigNumber_string s = Some t \<and> toString t = Some ''Invalid Number''"
proof -
  define sg :: int where "sg = (if hd s = CHR ''-'' \<or> hd s = CHR ''+''
                                then (if hd s = CHR ''+'' then 1 else - 1) else 1)"
  obtain t where t: "construct sg (map char_digit (rev (unsigned s))) = Some t"
      "number t = Sentinel invalid"
    using construct_invalid [OF assms(2)] by blast
  have "BigNumber_string s = construct sg (map char_digit (rev (unsigned s)))"
    using assms(1) by (simp add: BigNumber_string_def unsigned_def sg_def)
  moreover have "toString t = Some ''Invalid Number''"
    using t(2) by (simp add: toString_def)
  ultimately show ?thesis using t(1) by simp
qed

text \<open>Claim C2, amended: errors are data, never exceptions, in the places that create
  and render them. A value in an error state is rendered as its sentinel string, and so is
  a copy of it; a division by a zero divisor leaves the receiver in the DivisionByZero
  state, whatever the receiver was; a non-empty string with a character that is not a
  decimal digit after its optional sign builds a value in the InvalidFormat state. The
  arithmetic operations do not test their operands for an error state.\<close>

theorem errors_are_data:
  "(number b = Sentinel e \<longrightarrow>
      toString b = Some (errors e) \<and> toString (BigNumber_copy b) = Some (errors e))
   \<and> (isZero bigNumber \<longrightarrow>
      (\<exists>t. divide_core this bigNumber = Some (t, t)
           \<and> toString t = Some ''Invalid Number - Division By Zero''))
   \<and> (s \<noteq> [] \<and> \<not> list_all (\<lambda>c. digit_of_char c \<noteq> None) (unsigned s) \<longrightarrow>
      (\<exists>t. BigNumber_string s = Some t \<and> toString t = Some ''Invalid Number''))"
proof (intro conjI impI)
  assume "number b = Sentinel e"
  then show "toString b = Some (errors e)" by (rule toString_sentinel)
next
  assume "number b = Sentinel e"
  then show "toString (BigNumber_copy b) = Some (errors e)" by (rule toString_copy)
next
  assume "isZero bigNumber"
  then show "\<exists>t. divide_core this bigNumber = Some (t, t)
           \<and> toString t = Some ''Invalid Number - Division By Zero''"
    by (rule divide_by_zero)
next
  assume "s \<noteq> [] \<and> \<not> list_all (\<lambda>c. digit_of_char c \<noteq> None) (unsigned s)"
  then show "\<exists>t. BigNumber_string s = Some t \<and> toString t = Some ''Invalid Number''"
    using string_invalid by blast
qed

theorem errors_are_data_witness:
  "toString (BigNum (Sentinel invalid) 1 None) = Some ''Invalid Number''
   \<and> (\<exists>t. divide_core (BigNumber_native 5) (BigNumber_native 0) = Some (t, t)
           \<and> toString t = Some ''Invalid Number - Division By Zero'')
   \<and> (\<exists>t. BigNumber_string ''51s7'' = Some t \<and> toString t = Some ''Invalid Number'')"
proof -
  have 1: "number (BigNum (Sentinel invalid) 1 None) = Sentinel invalid" by simp
  have 2: "isZero (BigNumber_native 0)" by (simp add: BigNumber_native_def BigNumber_zero_def)
  have 3: "''51s7'' \<noteq> [] \<and> \<not> list_all (\<lambda>c. digit_of_char c \<noteq> None) (unsigned ''51s7'')"
    by (simp add: unsigned_def digit_of_char_def)
  note t = errors_are_data [of "BigNum (Sentinel invalid) 1 None" invalid "BigNumber_native 0"
          "BigNumber_native 5" "''51s7''"]
  have a: "toString (BigNum (Sentinel invalid) 1 None) = Some ''Invalid Number''"
    using t [THEN conjunct1, THEN mp, OF 1, THEN conjunct1] by simp
  have b: "\<exists>t. divide_core (BigNumber_native 5) (BigNumber_native 0) = Some (t, t)
           \<and> toString t = Some ''Invalid Number - Division By Zero''"
    by (rule t [THEN conjunct2, THEN conjunct1, THEN mp, OF 2])
  have c: "\<exists>t. BigNumber_string ''51s7'' = Some t \<and> toString t = Some ''Invalid Number''"
    by (rule t [THEN conjunct2, THEN conjunct2, THEN mp, OF 3])
  show ?thesis using a b c by (intro conjI)
qed

end
